theory Spec2Isabelle
  imports Main
begin

section \<open>Data model of the engine (src/src/Tetris.ts, src/src/Display.ts)\<close>

text \<open>
  The palette of Display.ts (\<^verbatim>\<open>type Color = keyof typeof colors\<close>).
\<close>

datatype Color = Yellow | Magenta | Cian | Lightgreen | Orange | White

text \<open>
  \<^verbatim>\<open>interface RenderPoint { x: number; y: number; color?: Color }\<close>.
  Coordinates are JavaScript numbers that only ever hold integers in the engine; they are
  modelled as unbounded integers. The optional colour is an \<open>option\<close>: tetromino
  offsets and the piece position carry no colour.
\<close>

record RenderPoint =
  x :: int
  y :: int
  color :: "Color option"

text \<open>
  A tetromino is the ordered list of its rotation states, each a list of offsets
  (\<^verbatim>\<open>this.currentTetromino[this.currentTetrominoRotation]\<close> is a list of points).
  The catalogue itself (tetrominoes.ts) is not part of the sources, so every function
  takes the tetromino as data.
\<close>

type_synonym Tetromino = "RenderPoint list list"

definition GRID_WIDTH :: int where
  "GRID_WIDTH = 10"

definition GRID_HEIGHT :: int where
  "GRID_HEIGHT = 20"

definition DEFAULT_COLOR :: Color where
  "DEFAULT_COLOR = White"

definition RANDOM_FILL_COUNT :: nat where
  "RANDOM_FILL_COUNT = 5"

definition INITIAL_TETROMINO_POSITION :: RenderPoint where
  "INITIAL_TETROMINO_POSITION = \<lparr>x = 4, y = - 1, color = None\<rparr>"

datatype Direction = Left | Right

text \<open>
  The fields of class \<^verbatim>\<open>Tetris\<close> that hold engine state. The display, clock, keyboard
  and option widgets are external collaborators and are left out; \<^verbatim>\<open>_difficulty\<close> is
  named \<open>difficulty\<close>.
\<close>

record Tetris =
  field :: "RenderPoint list"
  filledField :: "RenderPoint list"
  currentTetromino :: Tetromino
  currentTetrominoPosition :: RenderPoint
  currentTetrominoRotation :: nat
  currentColor :: Color
  nextTetromino :: Tetromino
  nextColor :: Color
  score :: int
  pause :: bool
  isColorOn :: bool
  difficulty :: int
  isSpeedChanging :: bool
  gameOver :: bool
  isLastMove :: bool
  isFirstMove :: bool

section \<open>Line clearing and scoring\<close>

text \<open>
  \<^verbatim>\<open>const allY = Array(GRID_HEIGHT).fill(null).map((_, index) => index)\<close>
\<close>

definition allY :: "int list" where
  "allY = map int [0 ..< nat GRID_HEIGHT]"

text \<open>
  The body of the \<^verbatim>\<open>for (const row of allY)\<close> loop of \<^verbatim>\<open>destroyFilledRows\<close>, on the
  pair of the two variables it updates: \<^verbatim>\<open>this.filledField\<close> and \<^verbatim>\<open>destroyedRows\<close>.
\<close>

definition destroyRow :: "int \<Rightarrow> RenderPoint list \<times> nat \<Rightarrow> RenderPoint list \<times> nat" where
  "destroyRow row st =
     (let ff = fst st;
          destroyedRows = snd st;
          filledCellsAmount = length (filter (\<lambda>c. y c = row) ff)
      in if int filledCellsAmount \<noteq> GRID_WIDTH then (ff, destroyedRows)
         else (map (\<lambda>coords. if y coords > row then coords else coords\<lparr>y := y coords + 1\<rparr>)
                 (filter (\<lambda>c. y c \<noteq> row) ff),
               destroyedRows + 1))"

text \<open>The loop itself, started with \<^verbatim>\<open>destroyedRows = 0\<close>.\<close>

definition destroyLoop :: "RenderPoint list \<Rightarrow> RenderPoint list \<times> nat" where
  "destroyLoop ff = foldl (\<lambda>st row. destroyRow row st) (ff, 0) allY"

text \<open>
  \<^verbatim>\<open>addScore(destroyedRows)\<close>: a switch with no default case. The call of
  \<^verbatim>\<open>renderScore\<close> only writes the score into the page.
\<close>

definition addScore :: "nat \<Rightarrow> Tetris \<Rightarrow> Tetris" where
  "addScore destroyedRows s =
     (if destroyedRows = 1 then s\<lparr>score := score s + 40\<rparr>
      else if destroyedRows = 2 then s\<lparr>score := score s + 100\<rparr>
      else if destroyedRows = 3 then s\<lparr>score := score s + 300\<rparr>
      else if destroyedRows = 4 then s\<lparr>score := score s + 1200\<rparr>
      else s)"

definition destroyFilledRows :: "Tetris \<Rightarrow> Tetris" where
  "destroyFilledRows s =
     (let r = destroyLoop (filledField s)
      in addScore (snd r) (s\<lparr>filledField := fst r\<rparr>))"

section \<open>The row-clearing algorithms the specification compares with\<close>

text \<open>
  The specification's words for one clear: "remove all its cells, then shift every remaining
  cell whose y is less than that row's y down by one (y += 1)".
\<close>

definition clearRowSpec :: "int \<Rightarrow> RenderPoint list \<Rightarrow> RenderPoint list" where
  "clearRowSpec r ff =
     map (\<lambda>c. if y c < r then c\<lparr>y := y c + 1\<rparr> else c) (filter (\<lambda>c. y c \<noteq> r) ff)"

text \<open>
  One clear with the direction of the specification's design note: "the source shifts
  cells with y > row (below the cleared row, since y grows downward) down into the gap",
  their y incremented by one, the cells with y < row staying in place.
\<close>

definition clearRowShiftingBelow :: "int \<Rightarrow> RenderPoint list \<Rightarrow> RenderPoint list" where
  "clearRowShiftingBelow r ff =
     map (\<lambda>c. if y c > r then c\<lparr>y := y c + 1\<rparr> else c) (filter (\<lambda>c. y c \<noteq> r) ff)"

text \<open>
  "for each row y in [0, H), if the count of Field cells with that y equals W, the row is
  full. All full rows are identified in this single pass": the full rows of a field, in
  increasing order of y.
\<close>

definition fullRows :: "RenderPoint list \<Rightarrow> int list" where
  "fullRows ff =
     filter (\<lambda>r. int (length (filter (\<lambda>c. y c = r) ff)) = GRID_WIDTH) [0 .. GRID_HEIGHT - 1]"

text \<open>
  The reference the specification compares the loop with: all full rows are found in one
  pass over the field before any clear, and are then cleared "from bottommost to topmost
  row, one at a time, removing and shifting before scanning the next". Each clear lets the
  rows above fall by one, so when \<open>k\<close> rows have been cleared, the row that was found at
  \<open>r\<close> lies at \<open>r + k\<close>, and that is where its cells are removed. The result is the final
  field and the number of rows cleared.
\<close>

definition referenceBottomUp :: "RenderPoint list \<Rightarrow> RenderPoint list \<times> nat" where
  "referenceBottomUp ff =
     foldl (\<lambda>st r. (clearRowSpec (r + int (snd st)) (fst st), Suc (snd st))) (ff, 0)
       (rev (fullRows ff))"

section \<open>The active piece\<close>

text \<open>
  \<^verbatim>\<open>get currentTetrominoCoords() { return this.currentTetromino[this.currentTetrominoRotation] }\<close>.
  An index outside the array reads \<^verbatim>\<open>undefined\<close> in JavaScript, and every caller then
  calls \<^verbatim>\<open>.map\<close> on it, which throws a TypeError: \<open>None\<close> stands for that throw, here and
  in every function below that returns an \<open>option\<close>.
\<close>

definition currentTetrominoCoords :: "Tetris \<Rightarrow> RenderPoint list option" where
  "currentTetrominoCoords s =
     (if currentTetrominoRotation s < length (currentTetromino s)
      then Some (currentTetromino s ! currentTetrominoRotation s) else None)"

text \<open>
  The getter builds fresh objects \<^verbatim>\<open>{ x: ..., y: ... }\<close>, without a colour.
\<close>

definition currentTetrominoAbsoluteCoords :: "Tetris \<Rightarrow> RenderPoint list option" where
  "currentTetrominoAbsoluteCoords s =
     (case currentTetrominoCoords s of
        None \<Rightarrow> None
      | Some cs \<Rightarrow>
          Some (map (\<lambda>tetrominoeCoords.
                  \<lparr>x = x tetrominoeCoords + x (currentTetrominoPosition s),
                   y = y tetrominoeCoords + y (currentTetrominoPosition s),
                   color = None\<rparr>) cs))"

text \<open>
  Modelled from the spec: \<^verbatim>\<open>getNextTetrominoRotation\<close> lives in tetrominoes.ts, which is
  not part of the sources. The specification gives \<open>nextRotationIndex(type, current) =
  (current + 1) mod rotationCount(type)\<close>, and index 0 when \<open>current\<close> is omitted.
\<close>

definition getNextTetrominoRotation :: "Tetromino \<Rightarrow> nat option \<Rightarrow> nat" where
  "getNextTetrominoRotation t current =
     (case current of None \<Rightarrow> 0 | Some r \<Rightarrow> (r + 1) mod length t)"

text \<open>
  \<^verbatim>\<open>filledField.some(({ x: filledX, y: filledY }) => x === filledX && filledY === y)\<close>,
  the test all four legality checks share.
\<close>

definition hitsFilled :: "RenderPoint list \<Rightarrow> RenderPoint \<Rightarrow> bool" where
  "hitsFilled ff p = list_ex (\<lambda>f. x p = x f \<and> y f = y p) ff"

definition checkCanPullTetromino :: "Tetris \<Rightarrow> bool option" where
  "checkCanPullTetromino s =
     (case currentTetrominoAbsoluteCoords s of
        None \<Rightarrow> None
      | Some cs \<Rightarrow>
          (let potentialPullAbsoluteCoords = map (\<lambda>coords. coords\<lparr>y := y coords + 1\<rparr>) cs
           in Some (\<not> list_ex (\<lambda>p. y p \<ge> GRID_HEIGHT \<or> hitsFilled (filledField s) p)
                        potentialPullAbsoluteCoords)))"

definition checkCanStrafeTetromino :: "Direction \<Rightarrow> Tetris \<Rightarrow> bool option" where
  "checkCanStrafeTetromino direction s =
     (case currentTetrominoAbsoluteCoords s of
        None \<Rightarrow> None
      | Some cs \<Rightarrow>
          (case direction of
             Left \<Rightarrow>
               (let potentialStrafeLeftCoords = map (\<lambda>coords. coords\<lparr>x := x coords - 1\<rparr>) cs
                in Some (\<not> list_ex (\<lambda>p. x p < 0 \<or> hitsFilled (filledField s) p)
                             potentialStrafeLeftCoords))
           | Right \<Rightarrow>
               (let potentialStrafeRightCoords = map (\<lambda>coords. coords\<lparr>x := x coords + 1\<rparr>) cs
                in Some (\<not> list_ex (\<lambda>p. x p \<ge> GRID_WIDTH \<or> hitsFilled (filledField s) p)
                             potentialStrafeRightCoords))))"

text \<open>
  \<^verbatim>\<open>Math.max(...vs)\<close> and \<^verbatim>\<open>Math.min(...vs)\<close>; \<open>None\<close> is the \<^verbatim>\<open>-Infinity\<close>
  (respectively \<^verbatim>\<open>Infinity\<close>) that JavaScript returns for no arguments.
\<close>

definition mathMax :: "int list \<Rightarrow> int option" where
  "mathMax vs = (case vs of [] \<Rightarrow> None | v # rest \<Rightarrow> Some (fold max rest v))"

definition mathMin :: "int list \<Rightarrow> int option" where
  "mathMin vs = (case vs of [] \<Rightarrow> None | v # rest \<Rightarrow> Some (fold min rest v))"

definition checkCanRotateTetromino :: "Tetris \<Rightarrow> bool option" where
  "checkCanRotateTetromino s =
     (let potentialTetrominoRotation =
            getNextTetrominoRotation (currentTetromino s) (Some (currentTetrominoRotation s))
      in if potentialTetrominoRotation < length (currentTetromino s)
         then
           (let potentialTetrominoCoords =
                  map (\<lambda>coords. \<lparr>x = x coords + x (currentTetrominoPosition s),
                                 y = y coords + y (currentTetrominoPosition s),
                                 color = None\<rparr>)
                      (currentTetromino s ! potentialTetrominoRotation);
                xs = map x potentialTetrominoCoords;
                ys = map y potentialTetrominoCoords;
                maxY = mathMax ys;
                minX = mathMin xs;
                maxX = mathMax xs
            in Some ((case maxY of None \<Rightarrow> True | Some m \<Rightarrow> m < GRID_HEIGHT)
                   \<and> (case minX of None \<Rightarrow> True | Some m \<Rightarrow> m \<ge> 0)
                   \<and> (case maxX of None \<Rightarrow> True | Some m \<Rightarrow> m < GRID_WIDTH)
                   \<and> list_all (\<lambda>p. \<not> list_ex (\<lambda>f. x f = x p \<and> y f = y p) (filledField s))
                               potentialTetrominoCoords))
         else None)"

text \<open>
  The specification's \<open>isLegal(placement, field)\<close>, on the absolute cells of a placement:
  "true iff every absolute cell satisfies 0 \<le> x < W, y < H, and no absolute cell coincides
  with a Field cell".
\<close>

definition isLegal :: "RenderPoint list \<Rightarrow> RenderPoint list \<Rightarrow> bool" where
  "isLegal cells ff =
     (\<forall>p \<in> set cells. 0 \<le> x p \<and> x p < GRID_WIDTH \<and> y p < GRID_HEIGHT
                       \<and> \<not> (\<exists>f \<in> set ff. x f = x p \<and> y f = y p))"

text \<open>The piece moved by one cell, as the specification's "translated" placement.\<close>

definition translated :: "int \<Rightarrow> int \<Rightarrow> RenderPoint list \<Rightarrow> RenderPoint list" where
  "translated dx dy cells = map (\<lambda>p. p\<lparr>x := x p + dx, y := y p + dy\<rparr>) cells"

definition inBounds :: "RenderPoint list \<Rightarrow> bool" where
  "inBounds cells = (\<forall>p \<in> set cells. 0 \<le> x p \<and> x p < GRID_WIDTH \<and> y p < GRID_HEIGHT)"

section \<open>Game actions\<close>

text \<open>
  \<^verbatim>\<open>generateNextTetromino\<close>. The two random draws, \<^verbatim>\<open>getNextTetromino()\<close> and
  \<^verbatim>\<open>getNextRandomColor()\<close>, are arguments: \<open>t\<close> and \<open>c\<close>.
\<close>

definition generateNextTetromino :: "Tetromino \<Rightarrow> Color \<Rightarrow> Tetris \<Rightarrow> Tetris" where
  "generateNextTetromino t c s =
     (let s1 = s\<lparr>currentTetrominoPosition := INITIAL_TETROMINO_POSITION\<rparr>;
          s2 = s1\<lparr>currentTetromino := nextTetromino s1\<rparr>;
          s3 = s2\<lparr>currentColor := nextColor s2\<rparr>;
          s4 = s3\<lparr>nextTetromino := t\<rparr>;
          s5 = s4\<lparr>nextColor := (if isColorOn s4 then c else DEFAULT_COLOR)\<rparr>
      in s5\<lparr>currentTetrominoRotation := getNextTetrominoRotation (currentTetromino s5) None\<rparr>)"

definition strafeTetromino :: "Direction \<Rightarrow> Tetris \<Rightarrow> Tetris option" where
  "strafeTetromino direction s =
     (if pause s then Some s
      else case checkCanStrafeTetromino direction s of
             None \<Rightarrow> None
           | Some can \<Rightarrow>
               if \<not> can then Some s
               else (let nextX = x (currentTetrominoPosition s)
                                   + (if direction = Left then - 1 else 1)
                     in Some (s\<lparr>currentTetrominoPosition :=
                                   (currentTetrominoPosition s)\<lparr>x := nextX\<rparr>\<rparr>)))"

definition pullTetromino :: "Tetris \<Rightarrow> Tetris" where
  "pullTetromino s =
     s\<lparr>currentTetrominoPosition :=
          (currentTetrominoPosition s)\<lparr>y := y (currentTetrominoPosition s) + 1\<rparr>\<rparr>"

definition rotateTetromino :: "Tetris \<Rightarrow> Tetris option" where
  "rotateTetromino s =
     (if pause s then Some s
      else case checkCanRotateTetromino s of
             None \<Rightarrow> None
           | Some can \<Rightarrow>
               if \<not> can then Some s
               else Some (s\<lparr>currentTetrominoRotation :=
                              getNextTetrominoRotation (currentTetromino s)
                                (Some (currentTetrominoRotation s))\<rparr>))"

definition saveTetromino :: "Tetris \<Rightarrow> Tetris option" where
  "saveTetromino s =
     (case currentTetrominoAbsoluteCoords s of
        None \<Rightarrow> None
      | Some cs \<Rightarrow>
          Some (s\<lparr>filledField :=
                    filledField s @ map (\<lambda>coords. coords\<lparr>color := Some (currentColor s)\<rparr>) cs\<rparr>))"

text \<open>
  \<^verbatim>\<open>while (this.checkCanPullTetromino()) { this.pullTetromino() }\<close>. The loop need not
  end (a rotation state with no cell can always be pulled), so it is a partial function:
  \<open>None\<close> is a loop that does not return, or the TypeError of the check.
\<close>

partial_function (option) pullLoop :: "Tetris \<Rightarrow> Tetris option" where
  "pullLoop s =
     (case checkCanPullTetromino s of
        None \<Rightarrow> None
      | Some can \<Rightarrow> if can then pullLoop (pullTetromino s) else Some s)"

declare pullLoop.simps [code]

definition pullFullTetromino :: "Tetris \<Rightarrow> Tetris option" where
  "pullFullTetromino s =
     (if pause s then Some s else pullLoop (s\<lparr>isFirstMove := False\<rparr>))"

section \<open>Options: pause, restart, colours, difficulty, load\<close>

definition togglePause :: "Tetris \<Rightarrow> Tetris" where
  "togglePause s = (if gameOver s then s else s\<lparr>pause := \<not> pause s\<rparr>)"

definition cleanField :: "Tetris \<Rightarrow> Tetris" where
  "cleanField s = s\<lparr>filledField := [], field := []\<rparr>"

text \<open>
  The \<^verbatim>\<open>while (filledAmount < RANDOM_FILL_COUNT)\<close> loop of \<^verbatim>\<open>#fillRow\<close>. Its first
  argument lists, for each iteration in turn, what \<^verbatim>\<open>Math.random() > 0.5\<close> yields if that
  iteration evaluates it. The loop has no bound of its own: when the list ends before five
  cells are chosen, the result is \<open>None\<close>, a loop that has not returned. The result is
  the array \<^verbatim>\<open>generated\<close> and the unused part of the list.
\<close>

fun fillRowLoop ::
  "bool list \<Rightarrow> bool list \<Rightarrow> nat \<Rightarrow> int \<Rightarrow> nat \<Rightarrow> (bool list \<times> bool list) option" where
  "fillRowLoop [] generated filledAmount current filledStreak =
     (if filledAmount < RANDOM_FILL_COUNT then None else Some (generated, []))"
| "fillRowLoop (r # rnd) generated filledAmount current filledStreak =
     (if filledAmount < RANDOM_FILL_COUNT
      then (let current' = (current + 1) mod GRID_WIDTH
            in if generated ! nat current'
               then fillRowLoop rnd generated filledAmount current' filledStreak
               else (let fillingHere = filledStreak < 2 \<and> r
                     in if fillingHere
                        then fillRowLoop rnd (generated[nat current' := True])
                               (filledAmount + 1) current' (filledStreak + 1)
                        else fillRowLoop rnd generated filledAmount current' 0))
      else Some (generated, r # rnd))"

text \<open>
  \<^verbatim>\<open>#fillRow(row)\<close>. Every new cell gets its own \<^verbatim>\<open>getNextRandomColor()\<close>:
  \<open>cols n\<close> is the colour that the \<open>n\<close>-th such call of one pre-fill returns, and \<open>k\<close>
  counts the calls made so far. The result is the new state, the unused random draws
  and the new count of colour calls.
\<close>

definition fillRow ::
  "bool list \<Rightarrow> (nat \<Rightarrow> Color) \<Rightarrow> nat \<Rightarrow> int \<Rightarrow> Tetris
     \<Rightarrow> (Tetris \<times> bool list \<times> nat) option" where
  "fillRow rnd cols k row s =
     (case fillRowLoop rnd (replicate (nat GRID_WIDTH) False) 0 (- 1) 0 of
        None \<Rightarrow> None
      | Some res \<Rightarrow>
          (let generated = fst res;
               filtered = map snd (filter fst (zip generated (map int [0 ..< length generated])))
           in Some (s\<lparr>filledField :=
                        filledField s @
                        map (\<lambda>nx. \<lparr>x = snd nx, y = row, color = Some (cols (k + fst nx))\<rparr>)
                            (zip [0 ..< length filtered] filtered)\<rparr>,
                    snd res, k + length filtered)))"

text \<open>
  \<^verbatim>\<open>for (let i = 0; i < this._difficulty; i++) { this.#fillRow(GRID_HEIGHT - 1 - i) }\<close>,
  over the values of \<open>i\<close>; the random draws and the count of colour calls pass from one
  row to the next.
\<close>

fun fillRows ::
  "int list \<Rightarrow> bool list \<Rightarrow> (nat \<Rightarrow> Color) \<Rightarrow> nat \<Rightarrow> Tetris \<Rightarrow> Tetris option" where
  "fillRows [] rnd cols k s = Some s"
| "fillRows (i # rest) rnd cols k s =
     (case fillRow rnd cols k (GRID_HEIGHT - 1 - i) s of
        None \<Rightarrow> None
      | Some res \<Rightarrow> fillRows rest (fst (snd res)) cols (snd (snd res)) (fst res))"

definition fillField :: "bool list \<Rightarrow> (nat \<Rightarrow> Color) \<Rightarrow> Tetris \<Rightarrow> Tetris option" where
  "fillField rnd cols s = fillRows (map int [0 ..< nat (difficulty s)]) rnd cols 0 s"

text \<open>
  \<^verbatim>\<open>restart()\<close>; \<^verbatim>\<open>options.toggle()\<close> and \<^verbatim>\<open>renderScore()\<close> only touch the page.
\<close>

definition restart ::
  "bool list \<Rightarrow> (nat \<Rightarrow> Color) \<Rightarrow> Tetromino \<Rightarrow> Color \<Rightarrow> Tetris \<Rightarrow> Tetris option" where
  "restart rnd cols t c s =
     (let s1 = s\<lparr>score := 0, gameOver := False, pause := False, isFirstMove := True\<rparr>
      in case fillField rnd cols (cleanField s1) of
           None \<Rightarrow> None
         | Some s2 \<Rightarrow> Some (generateNextTetromino t c s2))"

text \<open>
  \<^verbatim>\<open>switchColor(isColorOn)\<close>; \<open>c\<close> is the colour drawn for the piece and \<open>cols k\<close> the
  one drawn for the \<open>k\<close>-th cell of the field.
\<close>

definition switchColor :: "bool \<Rightarrow> Color \<Rightarrow> (nat \<Rightarrow> Color) \<Rightarrow> Tetris \<Rightarrow> Tetris" where
  "switchColor on c cols s =
     (let s1 = s\<lparr>isColorOn := on\<rparr>
      in if on
         then s1\<lparr>currentColor := c,
                 filledField := map (\<lambda>kc. (snd kc)\<lparr>color := Some (cols (fst kc))\<rparr>)
                                    (zip [0 ..< length (filledField s1)] (filledField s1))\<rparr>
         else s1\<lparr>currentColor := DEFAULT_COLOR,
                 filledField := map (\<lambda>coords. coords\<lparr>color := Some DEFAULT_COLOR\<rparr>)
                                    (filledField s1)\<rparr>)"

text \<open>
  \<^verbatim>\<open>set difficulty(value)\<close>, for the integer values the number input yields.
\<close>

definition setDifficulty :: "int \<Rightarrow> Tetris \<Rightarrow> Tetris" where
  "setDifficulty v s =
     (let isValidValue = (v \<ge> 0 \<and> v \<le> 10)
      in s\<lparr>difficulty := (if isValidValue then v else 0)\<rparr>)"

text \<open>
  What \<^verbatim>\<open>save()\<close> stores and \<^verbatim>\<open>load()\<close> reads back; \<open>None\<close> is an empty storage slot.
\<close>

record Saved =
  savedTetromino :: Tetromino
  savedRotation :: nat
  savedPosition :: RenderPoint
  savedColor :: Color
  savedNextTetromino :: Tetromino
  savedNextColor :: Color
  savedFilledField :: "RenderPoint list"
  savedScore :: int

definition load :: "Saved option \<Rightarrow> Tetris \<Rightarrow> Tetris" where
  "load loadString s =
     (case loadString of
        None \<Rightarrow> s
      | Some toLoad \<Rightarrow>
          s\<lparr>filledField := savedFilledField toLoad,
            currentTetromino := savedTetromino toLoad,
            currentTetrominoRotation := savedRotation toLoad,
            currentTetrominoPosition := savedPosition toLoad,
            currentColor := savedColor toLoad,
            nextTetromino := savedNextTetromino toLoad,
            nextColor := savedNextColor toLoad,
            score := savedScore toLoad\<rparr>)"

section \<open>The logic tick\<close>

text \<open>
  How a call of \<^verbatim>\<open>game()\<close> ends: it returns, or it throws a TypeError. Either way the
  engine is left in a state, the one carried here.
\<close>

datatype Outcome = Returned Tetris | Threw Tetris

fun stateOf :: "Outcome \<Rightarrow> Tetris" where
  "stateOf (Returned s) = s"
| "stateOf (Threw s) = s"

text \<open>
  \<^verbatim>\<open>game()\<close>, the callback of the logic timer. \<open>t\<close> and \<open>c\<close> are the random draws of
  \<^verbatim>\<open>generateNextTetromino\<close>, used only when the piece locks.

  The game-over branch sets \<^verbatim>\<open>gameOver\<close> and \<^verbatim>\<open>pause\<close> and then calls
  \<^verbatim>\<open>this.options.addScore(this.score)\<close>. Class \<^verbatim>\<open>Options\<close> (src/src/Options.ts) has a
  constructor and \<^verbatim>\<open>toggle()\<close> only, so that call throws a TypeError: the tick ends
  there, with both flags set and \<^verbatim>\<open>isLastMove\<close> untouched. A getter that throws does so
  before the assignment it stands in.
\<close>

definition game :: "Tetromino \<Rightarrow> Color \<Rightarrow> Tetris \<Rightarrow> Outcome" where
  "game t c s =
     (if pause s \<or> gameOver s then Returned s
      else case currentTetrominoAbsoluteCoords s of
             None \<Rightarrow> Threw s
           | Some cs \<Rightarrow>
               (let s1 = s\<lparr>field := filledField s @
                                     map (\<lambda>coords. coords\<lparr>color := Some (currentColor s)\<rparr>) cs\<rparr>
                in case checkCanPullTetromino s1 of
                     None \<Rightarrow> Threw s1
                   | Some can \<Rightarrow>
                       if can
                       then Returned (pullTetromino (s1\<lparr>isLastMove := False, isFirstMove := False\<rparr>))
                       else if isFirstMove s1
                       then Threw (s1\<lparr>gameOver := True, pause := True\<rparr>)
                       else if \<not> isLastMove s1 then Returned (s1\<lparr>isLastMove := True\<rparr>)
                       else case saveTetromino (s1\<lparr>isLastMove := False\<rparr>) of
                              None \<Rightarrow> Threw (s1\<lparr>isLastMove := False\<rparr>)
                            | Some s3 \<Rightarrow>
                                Returned (generateNextTetromino t c
                                            ((destroyFilledRows s3)\<lparr>isFirstMove := True\<rparr>))))"

section \<open>Runs of the engine\<close>

text \<open>
  The field initialisers and the constructor: two random pieces and colours, an empty
  field, rotation \<^verbatim>\<open>getNextTetrominoRotation(this.currentTetromino)\<close>.
\<close>

definition initial :: "Tetromino \<Rightarrow> Color \<Rightarrow> Tetromino \<Rightarrow> Color \<Rightarrow> Tetris" where
  "initial t c nt nc =
     \<lparr>field = [], filledField = [], currentTetromino = t,
      currentTetrominoPosition = INITIAL_TETROMINO_POSITION,
      currentTetrominoRotation = getNextTetrominoRotation t None,
      currentColor = c, nextTetromino = nt, nextColor = nc, score = 0, pause = False,
      isColorOn = True, difficulty = 0, isSpeedChanging = False, gameOver = False,
      isLastMove = False, isFirstMove = True\<rparr>"

text \<open>
  Everything the timers, the keyboard, the touch handlers and the option widgets call on
  the engine, with the random draws each call makes.
\<close>

datatype Event =
    Tick Tetromino Color
  | Strafe Direction
  | Rotate
  | HardDrop
  | TogglePause
  | Restart "bool list" "nat \<Rightarrow> Color" Tetromino Color
  | SwitchColor bool Color "nat \<Rightarrow> Color"
  | SetDifficulty int
  | SetSpeedChanging bool
  | Load "Saved option"

fun step :: "Event \<Rightarrow> Tetris \<Rightarrow> Tetris option" where
  "step (Tick t c) s = Some (stateOf (game t c s))"
| "step (Strafe d) s = strafeTetromino d s"
| "step Rotate s = rotateTetromino s"
| "step HardDrop s = pullFullTetromino s"
| "step TogglePause s = Some (togglePause s)"
| "step (Restart rnd cols t c) s = restart rnd cols t c s"
| "step (SwitchColor on c cols) s = Some (switchColor on c cols s)"
| "step (SetDifficulty v) s = Some (setDifficulty v s)"
| "step (SetSpeedChanging b) s = Some (s\<lparr>isSpeedChanging := b\<rparr>)"
| "step (Load l) s = Some (load l s)"

text \<open>
  A run: the events in order. After a tick the engine goes on from the state the tick
  left, whether it returned or threw. The run stops at the first other call that gives no
  state to go on from (a handler whose check throws has assigned nothing to the piece or
  the field, and a hard drop may not return).
\<close>

fun run :: "Event list \<Rightarrow> Tetris \<Rightarrow> Tetris option" where
  "run [] s = Some s"
| "run (e # es) s = (case step e s of None \<Rightarrow> None | Some s' \<Rightarrow> run es s')"

section \<open>Concrete fields and states used in the examples\<close>

text \<open>A full row: one cell in each of the ten columns.\<close>

definition fullRowAt :: "int \<Rightarrow> RenderPoint list" where
  "fullRowAt r = map (\<lambda>i. \<lparr>x = i, y = r, color = Some White\<rparr>) [0, 1, 2, 3, 4, 5, 6, 7, 8, 9]"

text \<open>Rows 18 and 19 full, and one cell above them in row 17.\<close>

definition twoFullRows :: "RenderPoint list" where
  "twoFullRows = \<lparr>x = 0, y = 17, color = Some Orange\<rparr> # fullRowAt 18 @ fullRowAt 19"

text \<open>
  A T-shaped piece in a box of three by three cells, with its four rotation states; the
  catalogue of the game is not part of the sources.
\<close>

definition tPiece :: Tetromino where
  "tPiece =
     [[\<lparr>x = 1, y = 0, color = None\<rparr>, \<lparr>x = 0, y = 1, color = None\<rparr>,
       \<lparr>x = 1, y = 1, color = None\<rparr>, \<lparr>x = 2, y = 1, color = None\<rparr>],
      [\<lparr>x = 1, y = 0, color = None\<rparr>, \<lparr>x = 1, y = 1, color = None\<rparr>,
       \<lparr>x = 2, y = 1, color = None\<rparr>, \<lparr>x = 1, y = 2, color = None\<rparr>],
      [\<lparr>x = 0, y = 1, color = None\<rparr>, \<lparr>x = 1, y = 1, color = None\<rparr>,
       \<lparr>x = 2, y = 1, color = None\<rparr>, \<lparr>x = 1, y = 2, color = None\<rparr>],
      [\<lparr>x = 1, y = 0, color = None\<rparr>, \<lparr>x = 0, y = 1, color = None\<rparr>,
       \<lparr>x = 1, y = 1, color = None\<rparr>, \<lparr>x = 1, y = 2, color = None\<rparr>]]"

text \<open>
  A freshly spawned T piece at the spawn position (4, -1) over a given field: the state
  right after a lock or a start, before the first logic tick.
\<close>

definition spawned :: "RenderPoint list \<Rightarrow> Tetris" where
  "spawned ff = (initial tPiece Yellow tPiece Magenta)\<lparr>filledField := ff\<rparr>"

text \<open>The same piece placed left of the grid, over an empty field.\<close>

definition offGrid :: Tetris where
  "offGrid = (spawned [])\<lparr>currentTetrominoPosition := \<lparr>x = - 5, y = 0, color = None\<rparr>\<rparr>"

text \<open>A stack in one column, from row \<open>first\<close> down to the floor (row 19).\<close>

definition columnFrom :: "int \<Rightarrow> int \<Rightarrow> RenderPoint list" where
  "columnFrom col first = map (\<lambda>j. \<lparr>x = col, y = j, color = Some Cian\<rparr>) [first .. 19]"

text \<open>The invariant of the field: no two cells at the same coordinate.\<close>

definition noOverlap :: "RenderPoint list \<Rightarrow> bool" where
  "noOverlap ff = distinct (map (\<lambda>c. (x c, y c)) ff)"

text \<open>The T piece next to the left wall, over an empty field.\<close>

definition atLeftWall :: Tetris where
  "atLeftWall = (spawned [])\<lparr>currentTetrominoPosition := \<lparr>x = 0, y = 5, color = None\<rparr>\<rparr>"

text \<open>
  The T piece lying on the floor of an empty field, after it has moved (so not on its
  first move) and before any tick has found it blocked.
\<close>

definition restingOnFloor :: Tetris where
  "restingOnFloor =
     (spawned [])\<lparr>currentTetrominoPosition := \<lparr>x = 4, y = 18, color = None\<rparr>,
                  isFirstMove := False\<rparr>"

section \<open>Clearing one full row\<close>

lemma destroyRow_full:
  "int (length (filter (\<lambda>c. y c = r) ff)) = GRID_WIDTH \<Longrightarrow>
   destroyRow r (ff, n) = (clearRowSpec r ff, Suc n)"
  unfolding destroyRow_def clearRowSpec_def Let_def
  by (auto intro!: map_cong)

lemma destroyRow_not_full:
  "int (length (filter (\<lambda>c. y c = r) ff)) \<noteq> GRID_WIDTH \<Longrightarrow>
   destroyRow r (ff, n) = (ff, n)"
  unfolding destroyRow_def Let_def by simp

text \<open>
  C9, as amended. When a full row \<open>r\<close> is cleared, the cells above it (\<open>y < r\<close>) are the
  ones that move: each of them appears in the new field one row lower (\<open>y + 1\<close>). The
  cells below it (\<open>y > r\<close>) stay in place, and the new field holds nothing else.
\<close>

theorem cleared_row_shifts_cells_above:
  assumes "int (length (filter (\<lambda>c. y c = r) ff)) = GRID_WIDTH"
  shows "(\<forall>c \<in> set ff. y c < r \<longrightarrow> c\<lparr>y := y c + 1\<rparr> \<in> set (fst (destroyRow r (ff, n))))
       \<and> (\<forall>c \<in> set ff. y c > r \<longrightarrow> c \<in> set (fst (destroyRow r (ff, n))))
       \<and> (\<forall>c' \<in> set (fst (destroyRow r (ff, n))).
             \<exists>c \<in> set ff. (y c < r \<and> c' = c\<lparr>y := y c + 1\<rparr>) \<or> (y c > r \<and> c' = c))"
proof -
  have eq: "fst (destroyRow r (ff, n)) = clearRowSpec r ff"
    using assms by (simp add: destroyRow_full)
  have a: "\<forall>c \<in> set ff. y c < r \<longrightarrow> c\<lparr>y := y c + 1\<rparr> \<in> set (clearRowSpec r ff)"
    unfolding clearRowSpec_def by (auto simp: image_iff intro!: bexI)
  have b: "\<forall>c \<in> set ff. y c > r \<longrightarrow> c \<in> set (clearRowSpec r ff)"
    unfolding clearRowSpec_def by (auto simp: image_iff intro!: bexI)
  have c: "\<forall>c' \<in> set (clearRowSpec r ff).
             \<exists>c \<in> set ff. (y c < r \<and> c' = c\<lparr>y := y c + 1\<rparr>) \<or> (y c > r \<and> c' = c)"
  proof
    fix c' assume "c' \<in> set (clearRowSpec r ff)"
    then obtain c where c: "c \<in> set ff" "y c \<noteq> r"
        "c' = (if y c < r then c\<lparr>y := y c + 1\<rparr> else c)"
      unfolding clearRowSpec_def by auto
    then have "(y c < r \<and> c' = c\<lparr>y := y c + 1\<rparr>) \<or> (y c > r \<and> c' = c)"
      by (cases "y c < r") auto
    with c(1) show "\<exists>c \<in> set ff. (y c < r \<and> c' = c\<lparr>y := y c + 1\<rparr>) \<or> (y c > r \<and> c' = c)"
      by blast
  qed
  show ?thesis unfolding eq using a b c by blast
qed

theorem cleared_row_shifts_cells_above_witness:
  "int (length (filter (\<lambda>c. y c = 18) twoFullRows)) = GRID_WIDTH
   \<and> \<lparr>x = 0, y = 18, color = Some Orange\<rparr> \<in> set (fst (destroyRow 18 (twoFullRows, 0)))
   \<and> \<lparr>x = 3, y = 19, color = Some White\<rparr> \<in> set (fst (destroyRow 18 (twoFullRows, 0)))"
proof -
  have h: "int (length (filter (\<lambda>c. y c = 18) twoFullRows)) = GRID_WIDTH"
    by code_simp
  have m1: "\<lparr>x = 0, y = 17, color = Some Orange\<rparr> \<in> set twoFullRows"
    unfolding twoFullRows_def by simp
  have m2: "\<lparr>x = 3, y = 19, color = Some White\<rparr> \<in> set twoFullRows"
    unfolding twoFullRows_def fullRowAt_def by simp
  note eff = cleared_row_shifts_cells_above [OF h, of 0]
  from eff m1 have a: "\<lparr>x = 0, y = 18, color = Some Orange\<rparr> \<in> set (fst (destroyRow 18 (twoFullRows, 0)))"
    by fastforce
  from eff m2 have b: "\<lparr>x = 3, y = 19, color = Some White\<rparr> \<in> set (fst (destroyRow 18 (twoFullRows, 0)))"
    by fastforce
  show ?thesis using h a b by blast
qed

text \<open>
  C9, as the specification words it, fails: with rows 18 and 19 full and one cell at
  (0, 17), clearing row 18 does not give the field in which the cells with \<open>y > 18\<close> are
  moved one row down and the cells with \<open>y < 18\<close> stay.
\<close>

theorem shift_below_refuted:
  "fst (destroyRow 18 (twoFullRows, 0)) = \<lparr>x = 0, y = 18, color = Some Orange\<rparr> # fullRowAt 19
   \<and> clearRowShiftingBelow 18 twoFullRows = \<lparr>x = 0, y = 17, color = Some Orange\<rparr> # fullRowAt 20
   \<and> fst (destroyRow 18 (twoFullRows, 0)) \<noteq> clearRowShiftingBelow 18 twoFullRows"
  by code_simp

section \<open>Scoring\<close>

text \<open>
  C2. A lock event runs \<^verbatim>\<open>destroyFilledRows\<close>, which passes the number of rows it
  destroyed to \<^verbatim>\<open>addScore\<close>: 0 rows leave the score unchanged, 1 row adds 40, 2 rows
  add 100, 3 rows add 300, 4 rows add 1200; whatever the number, the score does not
  decrease.
\<close>

theorem destroyFilledRows_score:
  "score (addScore 0 s) = score s
   \<and> score (addScore 1 s) = score s + 40
   \<and> score (addScore 2 s) = score s + 100
   \<and> score (addScore 3 s) = score s + 300
   \<and> score (addScore 4 s) = score s + 1200
   \<and> score (destroyFilledRows s) = score (addScore (snd (destroyLoop (filledField s))) s)
   \<and> score s \<le> score (addScore n s)
   \<and> score s \<le> score (destroyFilledRows s)"
  unfolding destroyFilledRows_def addScore_def Let_def by simp

section \<open>The whole clearing loop\<close>

lemma count_clearRowSpec_below:
  "r < r' \<Longrightarrow> filter (\<lambda>c. y c = r') (clearRowSpec r ff) = filter (\<lambda>c. y c = r') ff"
  unfolding clearRowSpec_def
  by (induction ff) auto

lemma destroy_fold:
  "sorted_wrt (<) rs \<Longrightarrow>
   foldl (\<lambda>st row. destroyRow row st) (ff, n) rs =
     (foldl (\<lambda>f r. clearRowSpec r f) ff
        (filter (\<lambda>r. int (length (filter (\<lambda>c. y c = r) ff)) = GRID_WIDTH) rs),
      n + length (filter (\<lambda>r. int (length (filter (\<lambda>c. y c = r) ff)) = GRID_WIDTH) rs))"
proof (induction rs arbitrary: ff n)
  case Nil
  then show ?case by simp
next
  case (Cons r rs)
  have srt: "sorted_wrt (<) rs" and gt: "\<forall>r' \<in> set rs. r < r'"
    using Cons.prems by simp_all
  show ?case
  proof (cases "int (length (filter (\<lambda>c. y c = r) ff)) = GRID_WIDTH")
    case True
    have same: "filter (\<lambda>r'. int (length (filter (\<lambda>c. y c = r') (clearRowSpec r ff))) = GRID_WIDTH) rs
              = filter (\<lambda>r'. int (length (filter (\<lambda>c. y c = r') ff)) = GRID_WIDTH) rs"
      using gt by (intro filter_cong) (simp_all add: count_clearRowSpec_below)
    show ?thesis
      using True Cons.IH [OF srt, of "clearRowSpec r ff" "Suc n"]
      by (simp add: destroyRow_full same)
  next
    case False
    show ?thesis
      using False Cons.IH [OF srt, of ff n]
      by (simp add: destroyRow_not_full)
  qed
qed

lemma allY_sorted: "sorted_wrt (<) allY"
  unfolding allY_def by (simp add: sorted_wrt_map sorted_wrt_upt)

lemma allY_upto: "allY = [0 .. GRID_HEIGHT - 1]"
  by code_simp

lemma fullRows_sorted: "sorted_wrt (<) (fullRows ff)"
  unfolding fullRows_def allY_upto [symmetric] using allY_sorted by (rule sorted_wrt_filter)

lemma destroyLoop_fold:
  "destroyLoop ff = (foldl (\<lambda>f r. clearRowSpec r f) ff (fullRows ff), length (fullRows ff))"
  unfolding destroyLoop_def fullRows_def allY_upto [symmetric]
  using destroy_fold [OF allY_sorted, of ff 0] by simp

lemma clearRowSpec_then_shift:
  assumes "\<forall>r' \<in> set rs. r < r'"
  shows "map (\<lambda>c. c\<lparr>y := y c + int (length (filter (\<lambda>r'. y c < r') rs))\<rparr>)
           (filter (\<lambda>c. y c \<notin> set rs) (clearRowSpec r ff))
       = map (\<lambda>c. c\<lparr>y := y c + int (length (filter (\<lambda>r'. y c < r') (r # rs)))\<rparr>)
           (filter (\<lambda>c. y c \<notin> set (r # rs)) ff)"
proof (induction ff)
  case Nil
  then show ?case by (simp add: clearRowSpec_def)
next
  case (Cons c ff)
  have above: "filter (\<lambda>r'. y c + 1 < r') rs = rs" "filter (\<lambda>r'. y c < r') rs = rs"
      "y c + 1 \<notin> set rs" "y c \<notin> set rs" if "y c < r"
    using assms that by (auto simp: filter_id_conv)
  have tail: "clearRowSpec r (c # ff) =
      (if y c = r then [] else [if y c < r then c\<lparr>y := y c + 1\<rparr> else c]) @ clearRowSpec r ff"
    by (simp add: clearRowSpec_def)
  show ?case
    unfolding tail using Cons.IH above by (cases "y c < r") auto
qed

lemma fold_clearRowSpec_closed_form:
  "sorted_wrt (<) rs \<Longrightarrow>
   foldl (\<lambda>f r. clearRowSpec r f) ff rs =
     map (\<lambda>c. c\<lparr>y := y c + int (length (filter (\<lambda>r. y c < r) rs))\<rparr>)
       (filter (\<lambda>c. y c \<notin> set rs) ff)"
proof (induction rs arbitrary: ff)
  case Nil
  then show ?case by simp
next
  case (Cons r rs)
  then have srt: "sorted_wrt (<) rs" and gt: "\<forall>r' \<in> set rs. r < r'" by simp_all
  show ?case
    using Cons.IH [OF srt, of "clearRowSpec r ff"] clearRowSpec_then_shift [OF gt, of ff]
    by simp
qed

text \<open>
  C1. \<^verbatim>\<open>destroyFilledRows\<close> clears exactly the full rows of the field it starts from
  (the rows \<open>r\<close> in [0, H) that hold W = 10 cells), one clear for each full row \<open>r\<close>: the
  clear removes all cells with \<open>y = r\<close>, increases the \<open>y\<close> of every remaining cell with
  \<open>y < r\<close> by exactly 1 and leaves every cell with \<open>y > r\<close> unchanged. In sum, the new
  field holds the cells that lay in no full row, in their order, each with its \<open>y\<close>
  increased by the number of full rows below it and nothing else changed; and the rows
  counted as destroyed are the full rows.
\<close>

theorem destroyFilledRows_full_rows_effect:
  "filledField (destroyFilledRows s) =
     foldl (\<lambda>f r. map (\<lambda>c. if y c < r then c\<lparr>y := y c + 1\<rparr> else c) (filter (\<lambda>c. y c \<noteq> r) f))
       (filledField s) (fullRows (filledField s))
   \<and> filledField (destroyFilledRows s) =
     map (\<lambda>c. c\<lparr>y := y c + int (length (filter (\<lambda>r. y c < r) (fullRows (filledField s))))\<rparr>)
       (filter (\<lambda>c. y c \<notin> set (fullRows (filledField s))) (filledField s))
   \<and> snd (destroyLoop (filledField s)) = length (fullRows (filledField s))"
proof -
  have l: "filledField (destroyFilledRows s) = fst (destroyLoop (filledField s))"
    unfolding destroyFilledRows_def addScore_def Let_def by simp
  have a: "filledField (destroyFilledRows s) =
     foldl (\<lambda>f r. clearRowSpec r f) (filledField s) (fullRows (filledField s))"
    unfolding l destroyLoop_fold by simp
  have b: "filledField (destroyFilledRows s) =
     map (\<lambda>c. c\<lparr>y := y c + int (length (filter (\<lambda>r. y c < r) (fullRows (filledField s))))\<rparr>)
       (filter (\<lambda>c. y c \<notin> set (fullRows (filledField s))) (filledField s))"
    unfolding a
    using fold_clearRowSpec_closed_form
            [where rs = "fullRows (filledField s)" and ff = "filledField s", OF fullRows_sorted]
    by simp
  have c: "snd (destroyLoop (filledField s)) = length (fullRows (filledField s))"
    unfolding destroyLoop_fold by simp
  show ?thesis using a [unfolded clearRowSpec_def] b c by simp
qed

theorem destroyFilledRows_full_rows_effect_witness:
  "fullRows (filledField (spawned twoFullRows)) = [18, 19]
   \<and> filledField (destroyFilledRows (spawned twoFullRows))
       = [\<lparr>x = 0, y = 19, color = Some Orange\<rparr>]
   \<and> snd (destroyLoop (filledField (spawned twoFullRows))) = 2"
proof -
  have f: "filledField (spawned twoFullRows) = twoFullRows"
    unfolding spawned_def by simp
  have rows: "fullRows twoFullRows = [18, 19]"
    by code_simp
  have kept: "filter (\<lambda>c. y c \<notin> set [18, 19]) twoFullRows = [\<lparr>x = 0, y = 17, color = Some Orange\<rparr>]"
    by code_simp
  show ?thesis
    using destroyFilledRows_full_rows_effect [of "spawned twoFullRows", THEN conjunct2]
    unfolding f rows kept by simp
qed

lemma clearRowSpec_swap:
  "r1 < r2 \<Longrightarrow> clearRowSpec r2 (clearRowSpec r1 ff) = clearRowSpec (r1 + 1) (clearRowSpec r2 ff)"
  unfolding clearRowSpec_def by (induction ff) auto

lemma clear_after_fold:
  "\<forall>q \<in> set qs. q < m \<Longrightarrow>
   clearRowSpec m (foldl (\<lambda>f r. clearRowSpec r f) ff qs) =
     foldl (\<lambda>f r. clearRowSpec r f) (clearRowSpec m ff) (map (\<lambda>q. q + 1) qs)"
proof (induction qs arbitrary: ff)
  case Nil
  then show ?case by simp
next
  case (Cons q qs)
  then have "q < m" and rest: "\<forall>q \<in> set qs. q < m" by simp_all
  from Cons.IH [OF rest, of "clearRowSpec q ff"] clearRowSpec_swap [OF \<open>q < m\<close>, of ff]
  show ?case by simp
qed

lemma rebased_fold:
  "sorted_wrt (<) rs \<Longrightarrow>
   foldl (\<lambda>st r. (clearRowSpec (r + int (snd st)) (fst st), Suc (snd st))) (ff, k) (rev rs)
     = (foldl (\<lambda>f r. clearRowSpec r f) ff (map (\<lambda>r. r + int k) rs), k + length rs)"
proof (induction rs arbitrary: ff k rule: rev_induct)
  case Nil
  then show ?case by simp
next
  case (snoc r rs)
  have srt: "sorted_wrt (<) rs" and lt: "\<forall>q \<in> set rs. q < r"
    using snoc.prems by (simp_all add: sorted_wrt_append)
  have lt': "\<forall>q \<in> set (map (\<lambda>r. r + int k) rs). q < r + int k"
    using lt by simp
  have m: "map (\<lambda>q. q + 1) (map (\<lambda>r. r + int k) rs) = map (\<lambda>r. r + int (Suc k)) rs"
    by simp
  show ?case
    using snoc.IH [OF srt, of "clearRowSpec (r + int k) ff" "Suc k"]
      clear_after_fold [OF lt', of ff]
    by (simp add: m del: map_map)
qed

text \<open>
  C3. For every field, the loop of \<^verbatim>\<open>destroyFilledRows\<close> gives the same final field and
  the same count of destroyed rows as the reference that first finds all full rows in one
  pass over the field before any clear and then clears them from the bottommost to the
  topmost, one at a time, removing the row's cells and shifting the cells above it down
  before it goes on to the next.
\<close>

theorem destroyLoop_eq_referenceBottomUp:
  "destroyLoop ff = referenceBottomUp ff
   \<and> filledField (destroyFilledRows s) = fst (referenceBottomUp (filledField s))"
proof -
  have a: "destroyLoop ff = referenceBottomUp ff" for ff
    unfolding referenceBottomUp_def destroyLoop_fold
    using rebased_fold [where rs = "fullRows ff" and ff = ff and k = 0, OF fullRows_sorted]
    by simp
  have "filledField (destroyFilledRows s) = fst (destroyLoop (filledField s))"
    unfolding destroyFilledRows_def addScore_def Let_def by simp
  then show ?thesis using a by simp
qed

text \<open>
  The reference on two examples: with rows 18 and 19 full and one cell at (0, 17) it
  leaves that cell, fallen to row 19, and counts two rows; with rows 16 to 19 full it
  leaves nothing and counts four.
\<close>

lemma referenceBottomUp_examples:
  "referenceBottomUp twoFullRows = ([\<lparr>x = 0, y = 19, color = Some Orange\<rparr>], 2)"
  "referenceBottomUp (fullRowAt 16 @ fullRowAt 17 @ fullRowAt 18 @ fullRowAt 19) = ([], 4)"
  by code_simp+

section \<open>Movement legality\<close>

lemma hitsFilled_iff: "hitsFilled ff p \<longleftrightarrow> (\<exists>f \<in> set ff. x f = x p \<and> y f = y p)"
  unfolding hitsFilled_def list_ex_iff by metis

text \<open>
  C4, as amended. For every field and every placement of the active piece whose cells lie
  inside the grid bounds (\<open>0 \<le> x < W\<close>, \<open>y < H\<close>), \<^verbatim>\<open>checkCanPullTetromino\<close> returns
  true iff the piece translated one row down is legal, and \<^verbatim>\<open>checkCanStrafeTetromino\<close>
  returns true iff the piece translated one column in the given direction is legal, where
  legal is the specification's \<open>isLegal\<close>: every cell has \<open>0 \<le> x < W\<close>, \<open>y < H\<close> and
  coincides with no field cell.
\<close>

theorem movement_checks_are_isLegal:
  assumes "currentTetrominoAbsoluteCoords s = Some cs" and "inBounds cs"
  shows "checkCanPullTetromino s = Some (isLegal (translated 0 1 cs) (filledField s))
       \<and> checkCanStrafeTetromino Left s = Some (isLegal (translated (- 1) 0 cs) (filledField s))
       \<and> checkCanStrafeTetromino Right s = Some (isLegal (translated 1 0 cs) (filledField s))"
proof -
  have b: "\<forall>p \<in> set cs. 0 \<le> x p \<and> x p < GRID_WIDTH \<and> y p < GRID_HEIGHT"
    using assms(2) unfolding inBounds_def .
  have pull: "checkCanPullTetromino s = Some (isLegal (translated 0 1 cs) (filledField s))"
    using b unfolding checkCanPullTetromino_def assms(1) isLegal_def translated_def Let_def
    by (auto simp: list_ex_iff hitsFilled_iff)
  have left: "checkCanStrafeTetromino Left s = Some (isLegal (translated (- 1) 0 cs) (filledField s))"
    using b unfolding checkCanStrafeTetromino_def assms(1) isLegal_def translated_def Let_def
    by (auto simp: list_ex_iff hitsFilled_iff)
  have right: "checkCanStrafeTetromino Right s = Some (isLegal (translated 1 0 cs) (filledField s))"
    using b unfolding checkCanStrafeTetromino_def assms(1) isLegal_def translated_def Let_def
    by (auto simp: list_ex_iff hitsFilled_iff)
  show ?thesis using pull left right by blast
qed

theorem movement_checks_are_isLegal_witness:
  "currentTetrominoAbsoluteCoords atLeftWall =
     Some [\<lparr>x = 1, y = 5, color = None\<rparr>, \<lparr>x = 0, y = 6, color = None\<rparr>,
           \<lparr>x = 1, y = 6, color = None\<rparr>, \<lparr>x = 2, y = 6, color = None\<rparr>]
   \<and> inBounds [\<lparr>x = 1, y = 5, color = None\<rparr>, \<lparr>x = 0, y = 6, color = None\<rparr>,
               \<lparr>x = 1, y = 6, color = None\<rparr>, \<lparr>x = 2, y = 6, color = None\<rparr>]
   \<and> isLegal (translated 0 1 [\<lparr>x = 1, y = 5, color = None\<rparr>, \<lparr>x = 0, y = 6, color = None\<rparr>,
               \<lparr>x = 1, y = 6, color = None\<rparr>, \<lparr>x = 2, y = 6, color = None\<rparr>]) (filledField atLeftWall)
   \<and> \<not> isLegal (translated (- 1) 0 [\<lparr>x = 1, y = 5, color = None\<rparr>, \<lparr>x = 0, y = 6, color = None\<rparr>,
               \<lparr>x = 1, y = 6, color = None\<rparr>, \<lparr>x = 2, y = 6, color = None\<rparr>]) (filledField atLeftWall)
   \<and> isLegal (translated 1 0 [\<lparr>x = 1, y = 5, color = None\<rparr>, \<lparr>x = 0, y = 6, color = None\<rparr>,
               \<lparr>x = 1, y = 6, color = None\<rparr>, \<lparr>x = 2, y = 6, color = None\<rparr>]) (filledField atLeftWall)"
proof -
  have h1: "currentTetrominoAbsoluteCoords atLeftWall =
     Some [\<lparr>x = 1, y = 5, color = None\<rparr>, \<lparr>x = 0, y = 6, color = None\<rparr>,
           \<lparr>x = 1, y = 6, color = None\<rparr>, \<lparr>x = 2, y = 6, color = None\<rparr>]"
    by code_simp
  have h2: "inBounds [\<lparr>x = 1, y = 5, color = None\<rparr>, \<lparr>x = 0, y = 6, color = None\<rparr>,
               \<lparr>x = 1, y = 6, color = None\<rparr>, \<lparr>x = 2, y = 6, color = None\<rparr>]"
    unfolding inBounds_def GRID_WIDTH_def GRID_HEIGHT_def by simp
  have p: "checkCanPullTetromino atLeftWall = Some True" by code_simp
  have l: "checkCanStrafeTetromino Left atLeftWall = Some False" by code_simp
  have r: "checkCanStrafeTetromino Right atLeftWall = Some True" by code_simp
  show ?thesis using h1 h2 movement_checks_are_isLegal [OF h1 h2] p l r by simp
qed

text \<open>
  C4, as the specification words it (for every placement), fails: each check tests only the
  one bound its move can newly break. A piece placed left of the grid over an empty field
  may be pulled down although none of its cells, moved one row down, has \<open>0 \<le> x\<close>.
\<close>

theorem checkCanPull_ignores_side_walls:
  "checkCanPullTetromino offGrid = Some True
   \<and> \<not> isLegal (translated 0 1 (the (currentTetrominoAbsoluteCoords offGrid))) (filledField offGrid)"
  unfolding isLegal_def by code_simp

section \<open>What the elementary moves change\<close>

text \<open>
  C10. Each elementary move changes at most its own component of the state:
  \<^verbatim>\<open>strafeTetromino\<close> returns the state with at most the \<open>x\<close> of the piece position
  replaced, \<^verbatim>\<open>pullTetromino\<close> the state with at most the \<open>y\<close> of the piece position
  replaced, \<^verbatim>\<open>rotateTetromino\<close> the state with at most the rotation index replaced. Every
  other field of the state, among them the filled field, the score, the piece type and
  the piece colour, is the same before and after.
\<close>

theorem moves_change_only_their_component:
  "(strafeTetromino d s = Some s1 \<longrightarrow>
      (\<exists>nx. s1 = s\<lparr>currentTetrominoPosition := (currentTetrominoPosition s)\<lparr>x := nx\<rparr>\<rparr>))
   \<and> (\<exists>ny. pullTetromino s = s\<lparr>currentTetrominoPosition := (currentTetrominoPosition s)\<lparr>y := ny\<rparr>\<rparr>)
   \<and> (rotateTetromino s = Some s2 \<longrightarrow> (\<exists>nr. s2 = s\<lparr>currentTetrominoRotation := nr\<rparr>))"
proof -
  have a: "strafeTetromino d s = Some s1 \<longrightarrow>
      (\<exists>nx. s1 = s\<lparr>currentTetrominoPosition := (currentTetrominoPosition s)\<lparr>x := nx\<rparr>\<rparr>)"
  proof
    assume h: "strafeTetromino d s = Some s1"
    then consider "s1 = s"
      | "s1 = s\<lparr>currentTetrominoPosition := (currentTetrominoPosition s)
               \<lparr>x := x (currentTetrominoPosition s) + (if d = Left then - 1 else 1)\<rparr>\<rparr>"
      unfolding strafeTetromino_def Let_def by (auto split: if_splits option.splits)
    then show "\<exists>nx. s1 = s\<lparr>currentTetrominoPosition := (currentTetrominoPosition s)\<lparr>x := nx\<rparr>\<rparr>"
    proof cases
      case 1
      then have "s1 = s\<lparr>currentTetrominoPosition :=
                        (currentTetrominoPosition s)\<lparr>x := x (currentTetrominoPosition s)\<rparr>\<rparr>"
        by simp
      then show ?thesis ..
    next
      case 2
      then show ?thesis ..
    qed
  qed
  have b: "\<exists>ny. pullTetromino s = s\<lparr>currentTetrominoPosition := (currentTetrominoPosition s)\<lparr>y := ny\<rparr>\<rparr>"
    unfolding pullTetromino_def by blast
  have c: "rotateTetromino s = Some s2 \<longrightarrow> (\<exists>nr. s2 = s\<lparr>currentTetrominoRotation := nr\<rparr>)"
  proof
    assume h: "rotateTetromino s = Some s2"
    then consider "s2 = s"
      | "s2 = s\<lparr>currentTetrominoRotation :=
                  getNextTetrominoRotation (currentTetromino s) (Some (currentTetrominoRotation s))\<rparr>"
      unfolding rotateTetromino_def by (auto split: if_splits option.splits)
    then show "\<exists>nr. s2 = s\<lparr>currentTetrominoRotation := nr\<rparr>"
    proof cases
      case 1
      then have "s2 = s\<lparr>currentTetrominoRotation := currentTetrominoRotation s\<rparr>" by simp
      then show ?thesis ..
    next
      case 2
      then show ?thesis ..
    qed
  qed
  show ?thesis using a b c by blast
qed

theorem moves_change_only_their_component_witness:
  "strafeTetromino Left (spawned []) =
     Some ((spawned [])\<lparr>currentTetrominoPosition := \<lparr>x = 3, y = - 1, color = None\<rparr>\<rparr>)
   \<and> (\<exists>nx. (spawned [])\<lparr>currentTetrominoPosition := \<lparr>x = 3, y = - 1, color = None\<rparr>\<rparr> =
             (spawned [])\<lparr>currentTetrominoPosition :=
                            (currentTetrominoPosition (spawned []))\<lparr>x := nx\<rparr>\<rparr>)
   \<and> rotateTetromino (spawned []) = Some ((spawned [])\<lparr>currentTetrominoRotation := 1\<rparr>)
   \<and> (\<exists>nr. (spawned [])\<lparr>currentTetrominoRotation := 1\<rparr> =
             (spawned [])\<lparr>currentTetrominoRotation := nr\<rparr>)"
proof -
  have a: "strafeTetromino Left (spawned []) =
     Some ((spawned [])\<lparr>currentTetrominoPosition := \<lparr>x = 3, y = - 1, color = None\<rparr>\<rparr>)"
    by code_simp
  have b: "rotateTetromino (spawned []) = Some ((spawned [])\<lparr>currentTetrominoRotation := 1\<rparr>)"
    by code_simp
  show ?thesis
    using a b moves_change_only_their_component [of Left "spawned []"
        "(spawned [])\<lparr>currentTetrominoPosition := \<lparr>x = 3, y = - 1, color = None\<rparr>\<rparr>"
        "(spawned [])\<lparr>currentTetrominoRotation := 1\<rparr>"]
    by blast
qed

section \<open>Paused and finished games\<close>

lemma addScore_flags [simp]:
  "pause (addScore n s) = pause s" "gameOver (addScore n s) = gameOver s"
  unfolding addScore_def by simp_all

lemma destroyFilledRows_flags [simp]:
  "pause (destroyFilledRows s) = pause s" "gameOver (destroyFilledRows s) = gameOver s"
  unfolding destroyFilledRows_def Let_def by simp_all

lemma generateNextTetromino_flags [simp]:
  "pause (generateNextTetromino t c s) = pause s"
  "gameOver (generateNextTetromino t c s) = gameOver s"
  unfolding generateNextTetromino_def Let_def by simp_all

lemma pullTetromino_flags [simp]:
  "pause (pullTetromino s) = pause s" "gameOver (pullTetromino s) = gameOver s"
  unfolding pullTetromino_def by simp_all

lemma saveTetromino_flags:
  "saveTetromino s = Some s' \<Longrightarrow> pause s' = pause s \<and> gameOver s' = gameOver s"
  unfolding saveTetromino_def by (auto split: option.splits)

lemma game_flags:
  assumes "gameOver s \<longrightarrow> pause s"
  shows "gameOver (stateOf (game t c s)) \<longrightarrow> pause (stateOf (game t c s))"
  using assms unfolding game_def Let_def
  by (auto split: if_splits option.splits dest!: saveTetromino_flags)

lemma pullLoop_flags:
  "pullLoop s = Some s' \<Longrightarrow> pause s' = pause s \<and> gameOver s' = gameOver s"
proof (induction rule: pullLoop.raw_induct [rotated 1, consumes 1])
  case (1 pullLoop' s s')
  then show ?case
    by (auto split: option.splits if_splits)
qed

lemma fillRows_flags:
  "fillRows is rnd cols k s = Some s' \<Longrightarrow> pause s' = pause s \<and> gameOver s' = gameOver s"
proof (induction "is" arbitrary: rnd k s)
  case Nil
  then show ?case by simp
next
  case (Cons i rest)
  then show ?case
    by (fastforce simp: fillRow_def Let_def split: option.splits)
qed

lemma step_flags:
  assumes "step e s = Some s'" and "gameOver s \<longrightarrow> pause s"
  shows "gameOver s' \<longrightarrow> pause s'"
proof (cases e)
  case (Tick t c)
  then show ?thesis using assms game_flags [of s t c] by auto
next
  case (Strafe d)
  then show ?thesis using assms
    by (auto simp: strafeTetromino_def Let_def split: if_splits option.splits)
next
  case Rotate
  then show ?thesis using assms
    by (auto simp: rotateTetromino_def split: if_splits option.splits)
next
  case HardDrop
  then show ?thesis using assms
    by (auto simp: pullFullTetromino_def split: if_splits dest!: pullLoop_flags)
next
  case TogglePause
  then show ?thesis using assms by (auto simp: togglePause_def split: if_splits)
next
  case (Restart rnd cols t c)
  then show ?thesis using assms
    by (auto simp: restart_def fillField_def cleanField_def Let_def
             split: option.splits dest!: fillRows_flags)
next
  case (SwitchColor on c cols)
  then show ?thesis using assms by (auto simp: switchColor_def Let_def split: if_splits)
next
  case (SetDifficulty v)
  then show ?thesis using assms by (auto simp: setDifficulty_def Let_def)
next
  case (SetSpeedChanging b)
  then show ?thesis using assms by auto
next
  case (Load l)
  then show ?thesis using assms by (auto simp: load_def split: option.splits)
qed

lemma run_flags:
  "run evs s = Some s' \<Longrightarrow> gameOver s \<longrightarrow> pause s \<Longrightarrow> gameOver s' \<longrightarrow> pause s'"
proof (induction evs arbitrary: s)
  case Nil
  then show ?case by simp
next
  case (Cons e evs)
  then obtain s1 where s1: "step e s = Some s1" "run evs s1 = Some s'"
    by (auto split: option.splits)
  from step_flags [OF s1(1) Cons.prems(2)] Cons.IH [OF s1(2)] show ?case by blast
qed

text \<open>
  C8. In every state the engine reaches from its initial state by any sequence of ticks,
  intents and option calls, if the game is paused or over then \<^verbatim>\<open>strafeTetromino\<close>,
  \<^verbatim>\<open>rotateTetromino\<close> and \<^verbatim>\<open>pullFullTetromino\<close> return the state unchanged. The handlers
  test \<^verbatim>\<open>this.pause\<close> only; a game that is over is always paused as well.
\<close>

theorem intents_ignored_when_paused_or_over:
  assumes "run evs (initial t c nt nc) = Some s" and "pause s \<or> gameOver s"
  shows "strafeTetromino d s = Some s \<and> rotateTetromino s = Some s \<and> pullFullTetromino s = Some s"
proof -
  have "gameOver (initial t c nt nc) \<longrightarrow> pause (initial t c nt nc)"
    unfolding initial_def by simp
  from run_flags [OF assms(1) this] assms(2) have "pause s" by blast
  then show ?thesis
    unfolding strafeTetromino_def rotateTetromino_def pullFullTetromino_def by simp
qed

theorem intents_ignored_when_paused_or_over_witness:
  "run [TogglePause] (initial tPiece Yellow tPiece Magenta)
     = Some ((initial tPiece Yellow tPiece Magenta)\<lparr>pause := True\<rparr>)
   \<and> pause ((initial tPiece Yellow tPiece Magenta)\<lparr>pause := True\<rparr>)
   \<and> strafeTetromino Left ((initial tPiece Yellow tPiece Magenta)\<lparr>pause := True\<rparr>)
       = Some ((initial tPiece Yellow tPiece Magenta)\<lparr>pause := True\<rparr>)
   \<and> rotateTetromino ((initial tPiece Yellow tPiece Magenta)\<lparr>pause := True\<rparr>)
       = Some ((initial tPiece Yellow tPiece Magenta)\<lparr>pause := True\<rparr>)
   \<and> pullFullTetromino ((initial tPiece Yellow tPiece Magenta)\<lparr>pause := True\<rparr>)
       = Some ((initial tPiece Yellow tPiece Magenta)\<lparr>pause := True\<rparr>)"
proof -
  have r: "run [TogglePause] (initial tPiece Yellow tPiece Magenta)
             = Some ((initial tPiece Yellow tPiece Magenta)\<lparr>pause := True\<rparr>)"
    by (simp add: togglePause_def initial_def)
  have p: "pause ((initial tPiece Yellow tPiece Magenta)\<lparr>pause := True\<rparr>)
           \<or> gameOver ((initial tPiece Yellow tPiece Magenta)\<lparr>pause := True\<rparr>)"
    by simp
  show ?thesis using r intents_ignored_when_paused_or_over [OF r p, of Left] by simp
qed

section \<open>The logic tick: grace tick, lock and game over\<close>

lemma abs_field [simp]:
  "currentTetrominoAbsoluteCoords (s\<lparr>field := f\<rparr>) = currentTetrominoAbsoluteCoords s"
  unfolding currentTetrominoAbsoluteCoords_def currentTetrominoCoords_def by simp

lemma abs_flags [simp]:
  "currentTetrominoAbsoluteCoords (s\<lparr>gameOver := b\<rparr>) = currentTetrominoAbsoluteCoords s"
  "currentTetrominoAbsoluteCoords (s\<lparr>pause := b\<rparr>) = currentTetrominoAbsoluteCoords s"
  "currentTetrominoAbsoluteCoords (s\<lparr>isLastMove := b\<rparr>) = currentTetrominoAbsoluteCoords s"
  unfolding currentTetrominoAbsoluteCoords_def currentTetrominoCoords_def by simp_all

lemma canPull_field [simp]:
  "checkCanPullTetromino (s\<lparr>field := f\<rparr>) = checkCanPullTetromino s"
  unfolding checkCanPullTetromino_def by (simp split: option.splits)

lemma filledField_generate [simp]:
  "filledField (generateNextTetromino t c s) = filledField s"
  unfolding generateNextTetromino_def Let_def by simp

lemma filledField_destroy [simp]:
  "filledField (destroyFilledRows s) = fst (destroyLoop (filledField s))"
  unfolding destroyFilledRows_def addScore_def Let_def by simp

lemma canPull_abs:
  "checkCanPullTetromino s = Some b \<Longrightarrow> \<exists>cs. currentTetrominoAbsoluteCoords s = Some cs"
  unfolding checkCanPullTetromino_def by (auto split: option.splits)

lemma game_stopped: "pause s \<or> gameOver s \<Longrightarrow> game t c s = Returned s"
  unfolding game_def by simp

lemma game_blocked_first_move:
  assumes "\<not> pause s" "\<not> gameOver s" "isFirstMove s" "checkCanPullTetromino s = Some False"
    and "currentTetrominoAbsoluteCoords s = Some cs"
  shows "game t c s =
     Threw (s\<lparr>field := filledField s @ map (\<lambda>p. p\<lparr>color := Some (currentColor s)\<rparr>) cs,
              gameOver := True, pause := True\<rparr>)"
  using assms unfolding game_def Let_def by simp

lemma game_blocked_grace:
  assumes "\<not> pause s" "\<not> gameOver s" "\<not> isFirstMove s" "\<not> isLastMove s"
    and "checkCanPullTetromino s = Some False"
    and "currentTetrominoAbsoluteCoords s = Some cs"
  shows "game t c s =
     Returned (s\<lparr>field := filledField s @ map (\<lambda>p. p\<lparr>color := Some (currentColor s)\<rparr>) cs,
                 isLastMove := True\<rparr>)"
  using assms unfolding game_def Let_def by simp

lemma game_blocked_lock:
  assumes "\<not> pause s" "\<not> gameOver s" "\<not> isFirstMove s" "isLastMove s"
    and "checkCanPullTetromino s = Some False"
    and "currentTetrominoAbsoluteCoords s = Some cs"
  shows "\<exists>s'. game t c s = Returned s'
     \<and> filledField s' =
         fst (destroyLoop (filledField s @ map (\<lambda>p. p\<lparr>color := Some (currentColor s)\<rparr>) cs))"
  using assms unfolding game_def Let_def saveTetromino_def
  by (simp add: generateNextTetromino_flags destroyFilledRows_flags)





text \<open>
  C6, as amended. On a logic tick of a running game whose pending-lock flag
  (\<^verbatim>\<open>isLastMove\<close>) is clear, a piece that cannot descend is not merged: the filled field
  and the piece stay as they are and the piece still cannot descend. If \<^verbatim>\<open>isFirstMove\<close>
  was clear, the tick returns and the next tick, with nothing done in between, merges the
  piece: the filled field becomes the old field with the coloured cells of the piece
  appended and the full rows cleared. If \<^verbatim>\<open>isFirstMove\<close> was set, the first tick ends the
  game instead and the next tick returns at once, changing nothing.
\<close>

theorem grace_tick_then_lock:
  assumes "\<not> pause s" "\<not> gameOver s" "\<not> isLastMove s" "checkCanPullTetromino s = Some False"
  shows "\<exists>cs. currentTetrominoAbsoluteCoords s = Some cs
           \<and> filledField (stateOf (game t c s)) = filledField s
           \<and> currentTetromino (stateOf (game t c s)) = currentTetromino s
           \<and> currentTetrominoPosition (stateOf (game t c s)) = currentTetrominoPosition s
           \<and> currentTetrominoRotation (stateOf (game t c s)) = currentTetrominoRotation s
           \<and> currentColor (stateOf (game t c s)) = currentColor s
           \<and> checkCanPullTetromino (stateOf (game t c s)) = Some False
           \<and> (\<not> isFirstMove s \<longrightarrow>
                (\<exists>s1 s2. game t c s = Returned s1 \<and> game t' c' s1 = Returned s2
                   \<and> filledField s2 =
                       fst (destroyLoop (filledField s @
                              map (\<lambda>p. p\<lparr>color := Some (currentColor s)\<rparr>) cs))))
           \<and> (isFirstMove s \<longrightarrow>
                gameOver (stateOf (game t c s))
                \<and> game t' c' (stateOf (game t c s)) = Returned (stateOf (game t c s)))"
proof -
  from canPull_abs [OF assms(4)] obtain cs where cs: "currentTetrominoAbsoluteCoords s = Some cs" ..
  define s1 where "s1 = stateOf (game t c s)"
  have s1: "s1 = (if isFirstMove s
      then s\<lparr>field := filledField s @ map (\<lambda>p. p\<lparr>color := Some (currentColor s)\<rparr>) cs,
             gameOver := True, pause := True\<rparr>
      else s\<lparr>field := filledField s @ map (\<lambda>p. p\<lparr>color := Some (currentColor s)\<rparr>) cs,
             isLastMove := True\<rparr>)"
  proof (cases "isFirstMove s")
    case True
    show ?thesis
      unfolding s1_def game_blocked_first_move [OF assms(1,2) True assms(4) cs] using True by simp
  next
    case False
    show ?thesis
      unfolding s1_def game_blocked_grace [OF assms(1,2) False assms(3,4) cs] using False by simp
  qed
  have same: "filledField s1 = filledField s" "currentTetromino s1 = currentTetromino s"
    "currentTetrominoPosition s1 = currentTetrominoPosition s"
    "currentTetrominoRotation s1 = currentTetrominoRotation s"
    "currentColor s1 = currentColor s"
    unfolding s1 by simp_all
  have abs1: "currentTetrominoAbsoluteCoords s1 = Some cs"
    using cs unfolding currentTetrominoAbsoluteCoords_def currentTetrominoCoords_def same .
  have pull1: "checkCanPullTetromino s1 = Some False"
    using assms(4) unfolding checkCanPullTetromino_def abs1 cs same .
  have lock: "\<exists>s1' s2. game t c s = Returned s1' \<and> game t' c' s1' = Returned s2
        \<and> filledField s2 =
            fst (destroyLoop (filledField s @ map (\<lambda>p. p\<lparr>color := Some (currentColor s)\<rparr>) cs))"
    if nf: "\<not> isFirstMove s"
  proof -
    have g: "game t c s = Returned s1"
      unfolding s1 using game_blocked_grace [OF assms(1,2) nf assms(3,4) cs] nf by simp
    have f1: "\<not> pause s1" "\<not> gameOver s1" "\<not> isFirstMove s1" "isLastMove s1"
      using assms(1,2) nf unfolding s1 by simp_all
    from game_blocked_lock [OF f1 pull1 abs1, of t' c'] g show ?thesis
      unfolding same by blast
  qed
  have over: "gameOver s1 \<and> game t' c' s1 = Returned s1" if "isFirstMove s"
  proof -
    have "gameOver s1" using that unfolding s1 by simp
    then show ?thesis using game_stopped [of s1 t' c'] by simp
  qed
  show ?thesis using cs same pull1 lock over unfolding s1_def by blast
qed

theorem grace_tick_then_lock_witness:
  "\<not> pause restingOnFloor \<and> \<not> gameOver restingOnFloor \<and> \<not> isLastMove restingOnFloor
   \<and> checkCanPullTetromino restingOnFloor = Some False
   \<and> filledField (stateOf (game tPiece Orange restingOnFloor)) = []
   \<and> (\<exists>s1 s2. game tPiece Orange restingOnFloor = Returned s1
        \<and> game tPiece White s1 = Returned s2
        \<and> filledField s2 =
            [\<lparr>x = 5, y = 18, color = Some Yellow\<rparr>, \<lparr>x = 4, y = 19, color = Some Yellow\<rparr>,
             \<lparr>x = 5, y = 19, color = Some Yellow\<rparr>, \<lparr>x = 6, y = 19, color = Some Yellow\<rparr>])"
proof -
  have f: "\<not> pause restingOnFloor" "\<not> gameOver restingOnFloor" "\<not> isLastMove restingOnFloor"
    unfolding restingOnFloor_def spawned_def initial_def by simp_all
  have nf: "\<not> isFirstMove restingOnFloor"
    unfolding restingOnFloor_def by simp
  have ff: "filledField restingOnFloor = []" "currentColor restingOnFloor = Yellow"
    unfolding restingOnFloor_def spawned_def initial_def by simp_all
  have b: "checkCanPullTetromino restingOnFloor = Some False"
    by code_simp
  have cs: "currentTetrominoAbsoluteCoords restingOnFloor =
     Some [\<lparr>x = 5, y = 18, color = None\<rparr>, \<lparr>x = 4, y = 19, color = None\<rparr>,
           \<lparr>x = 5, y = 19, color = None\<rparr>, \<lparr>x = 6, y = 19, color = None\<rparr>]"
    by code_simp
  have d: "fst (destroyLoop
            [\<lparr>x = 5, y = 18, color = Some Yellow\<rparr>, \<lparr>x = 4, y = 19, color = Some Yellow\<rparr>,
             \<lparr>x = 5, y = 19, color = Some Yellow\<rparr>, \<lparr>x = 6, y = 19, color = Some Yellow\<rparr>])
          = [\<lparr>x = 5, y = 18, color = Some Yellow\<rparr>, \<lparr>x = 4, y = 19, color = Some Yellow\<rparr>,
             \<lparr>x = 5, y = 19, color = Some Yellow\<rparr>, \<lparr>x = 6, y = 19, color = Some Yellow\<rparr>]"
    by code_simp
  from grace_tick_then_lock [OF f b, of tPiece Orange tPiece White] nf ff cs d
  have "filledField (stateOf (game tPiece Orange restingOnFloor)) = []
      \<and> (\<exists>s1 s2. game tPiece Orange restingOnFloor = Returned s1
        \<and> game tPiece White s1 = Returned s2
        \<and> filledField s2 =
            [\<lparr>x = 5, y = 18, color = Some Yellow\<rparr>, \<lparr>x = 4, y = 19, color = Some Yellow\<rparr>,
             \<lparr>x = 5, y = 19, color = Some Yellow\<rparr>, \<lparr>x = 6, y = 19, color = Some Yellow\<rparr>])"
    by auto
  then show ?thesis using f b by blast
qed

text \<open>
  C6, as the specification words it, fails for a piece that is blocked on the first tick
  after it spawned: a T piece spawned over a stack that reaches row 1 of column 5 cannot
  descend on the first tick and is not merged; that tick ends the game. On the second
  tick the piece still cannot descend, nothing happened in between, and it is not merged
  either: the tick returns at once.
\<close>

theorem grace_tick_game_over_never_locks:
  "\<not> pause (spawned (columnFrom 5 1)) \<and> \<not> gameOver (spawned (columnFrom 5 1))
   \<and> \<not> isLastMove (spawned (columnFrom 5 1))
   \<and> checkCanPullTetromino (spawned (columnFrom 5 1)) = Some False
   \<and> filledField (stateOf (game tPiece Orange (spawned (columnFrom 5 1)))) = columnFrom 5 1
   \<and> gameOver (stateOf (game tPiece Orange (spawned (columnFrom 5 1))))
   \<and> checkCanPullTetromino (stateOf (game tPiece Orange (spawned (columnFrom 5 1)))) = Some False
   \<and> game tPiece Orange (stateOf (game tPiece Orange (spawned (columnFrom 5 1))))
       = Returned (stateOf (game tPiece Orange (spawned (columnFrom 5 1))))
   \<and> map_option filledField (run [Tick tPiece Orange, Tick tPiece Orange] (spawned (columnFrom 5 1)))
       = Some (columnFrom 5 1)"
  by code_simp

section \<open>The no-overlap invariant of the field\<close>

text \<open>
  Where the invariant does hold: clearing rows keeps it, the pre-fill of \<^verbatim>\<open>restart\<close>
  establishes it, and a lock keeps it when the piece lies on no cell of the field.
\<close>

lemma noOverlap_append:
  "noOverlap (ff @ gg) \<longleftrightarrow>
     noOverlap ff \<and> noOverlap gg
     \<and> (\<forall>f \<in> set ff. \<forall>g \<in> set gg. \<not> (x f = x g \<and> y f = y g))"
  unfolding noOverlap_def by (auto simp: image_iff) 

lemma clearRowSpec_noOverlap:
  assumes "noOverlap ff"
  shows "noOverlap (clearRowSpec r ff)"
proof -
  have d: "distinct (map (\<lambda>c. (x c, y c)) ff)"
    using assms unfolding noOverlap_def .
  then have inj: "inj_on (\<lambda>c. (x c, y c)) (set ff)" and dff: "distinct ff"
    by (simp_all add: distinct_map)
  let ?g = "\<lambda>c. if y c < r then c\<lparr>y := y c + 1\<rparr> else c"
  have "inj_on (\<lambda>c. (x (?g c), y (?g c))) (set (filter (\<lambda>c. y c \<noteq> r) ff))"
  proof (rule inj_onI)
    fix a b
    assume a: "a \<in> set (filter (\<lambda>c. y c \<noteq> r) ff)" and b: "b \<in> set (filter (\<lambda>c. y c \<noteq> r) ff)"
      and e: "(x (?g a), y (?g a)) = (x (?g b), y (?g b))"
    from a b have ab: "a \<in> set ff" "b \<in> set ff" "y a \<noteq> r" "y b \<noteq> r" by simp_all
    from e ab(3,4) have "x a = x b \<and> y a = y b"
      by (auto split: if_splits)
    with inj ab(1,2) show "a = b" by (auto dest: inj_onD)
  qed
  moreover have "distinct (filter (\<lambda>c. y c \<noteq> r) ff)" using dff by simp
  ultimately have "distinct (map (\<lambda>c. (x (?g c), y (?g c))) (filter (\<lambda>c. y c \<noteq> r) ff))"
    by (simp add: distinct_map)
  then show ?thesis
    unfolding noOverlap_def clearRowSpec_def by (simp add: comp_def)
qed

lemma foldl_clearRowSpec_noOverlap:
  "noOverlap ff \<Longrightarrow> noOverlap (foldl (\<lambda>f r. clearRowSpec r f) ff rs)"
  by (induction rs arbitrary: ff) (simp_all add: clearRowSpec_noOverlap)

lemma destroyLoop_noOverlap:
  "noOverlap ff \<Longrightarrow> noOverlap (fst (destroyLoop ff))"
  unfolding destroyLoop_def
  using destroy_fold [OF allY_sorted, of ff 0] foldl_clearRowSpec_noOverlap [of ff]
  by simp

lemma map_snd_zip_upt:
  "map (\<lambda>kx. f (snd kx)) (zip [0 ..< length zs] zs) = map f zs"
  by (induction zs rule: rev_induct) simp_all

lemma fillRow_cells:
  assumes "fillRow rnd cols k row s = Some (s', rnd', k')"
  shows "\<exists>new. filledField s' = filledField s @ new \<and> noOverlap new \<and> (\<forall>c \<in> set new. y c = row)"
proof -
  from assms obtain generated where
    s': "s' = s\<lparr>filledField := filledField s @
             map (\<lambda>nx. \<lparr>x = snd nx, y = row, color = Some (cols (k + fst nx))\<rparr>)
               (zip [0 ..< length (map snd (filter fst (zip generated (map int [0 ..< length generated]))))]
                    (map snd (filter fst (zip generated (map int [0 ..< length generated])))))\<rparr>"
    unfolding fillRow_def Let_def by (auto split: option.splits)
  let ?filtered = "map snd (filter fst (zip generated (map int [0 ..< length generated])))"
  let ?new = "map (\<lambda>nx. \<lparr>x = snd nx, y = row, color = Some (cols (k + fst nx))\<rparr>)
               (zip [0 ..< length ?filtered] ?filtered)"
  have "distinct (map snd (zip generated (map int [0 ..< length generated])))"
    by (simp add: distinct_map)
  then have df: "distinct ?filtered"
    by (rule distinct_map_filter)
  have "map (\<lambda>c. (x c, y c)) ?new = map (\<lambda>v. (v, row)) ?filtered"
    using map_snd_zip_upt [of "\<lambda>v. (v, row)" ?filtered] by (simp add: comp_def)
  then have "noOverlap ?new"
    unfolding noOverlap_def using df by (simp add: distinct_map inj_on_def)
  moreover have "\<forall>c \<in> set ?new. y c = row" by auto
  ultimately show ?thesis using s' by auto
qed

lemma fillRows_noOverlap:
  assumes "fillRows is rnd cols k s = Some s'" and "noOverlap (filledField s)"
    and "distinct is" and "\<forall>c \<in> set (filledField s). \<forall>i \<in> set is. y c \<noteq> GRID_HEIGHT - 1 - i"
  shows "noOverlap (filledField s')"
  using assms
proof (induction "is" arbitrary: rnd k s)
  case Nil
  then show ?case by simp
next
  case (Cons i rest)
  from Cons.prems(1) obtain s1 rnd1 k1 where
    r: "fillRow rnd cols k (GRID_HEIGHT - 1 - i) s = Some (s1, rnd1, k1)"
    and rec: "fillRows rest rnd1 cols k1 s1 = Some s'"
    by (auto split: option.splits)
  from fillRow_cells [OF r] obtain new where
    new: "filledField s1 = filledField s @ new" "noOverlap new"
      "\<forall>c \<in> set new. y c = GRID_HEIGHT - 1 - i"
    by blast
  have n1: "noOverlap (filledField s1)"
    unfolding new(1) noOverlap_append using Cons.prems(2,4) new(2,3) by auto
  have d: "distinct rest" using Cons.prems(3) by simp
  have fresh: "\<forall>c \<in> set (filledField s1). \<forall>j \<in> set rest. y c \<noteq> GRID_HEIGHT - 1 - j"
    unfolding new(1) using Cons.prems(3,4) new(3) by auto
  from Cons.IH [OF rec n1 d fresh] show ?case .
qed

lemma restart_noOverlap:
  assumes "restart rnd cols t c s = Some s'"
  shows "noOverlap (filledField s')"
proof -
  from assms obtain s2 where
    f: "fillField rnd cols (cleanField (s\<lparr>score := 0, gameOver := False, pause := False,
                                          isFirstMove := True\<rparr>)) = Some s2"
    and s': "s' = generateNextTetromino t c s2"
    unfolding restart_def Let_def by (auto split: option.splits)
  have "noOverlap (filledField s2)"
    using f unfolding fillField_def
    by (rule fillRows_noOverlap) (simp_all add: cleanField_def noOverlap_def distinct_map inj_on_def)
  then show ?thesis unfolding s' by simp
qed

lemma saveTetromino_noOverlap:
  assumes "saveTetromino s = Some s'" and "currentTetrominoAbsoluteCoords s = Some cs"
    and "noOverlap (filledField s)" and "noOverlap cs"
    and "\<forall>p \<in> set cs. \<not> hitsFilled (filledField s) p"
  shows "noOverlap (filledField s')"
proof -
  have s': "filledField s' = filledField s @ map (\<lambda>coords. coords\<lparr>color := Some (currentColor s)\<rparr>) cs"
    using assms(1,2) unfolding saveTetromino_def by auto
  have "noOverlap (map (\<lambda>coords. coords\<lparr>color := Some (currentColor s)\<rparr>) cs)"
    using assms(4) unfolding noOverlap_def by (simp add: comp_def)
  then show ?thesis
    unfolding s' noOverlap_append using assms(3,5) by (auto simp: hitsFilled_iff)
qed

text \<open>
  C5 at a failing run. A T piece spawns at (4, -1) over a stack that fills column 5 up to
  row 0: its cell (5, 0) lies on a cell of the field and it cannot descend. The field has
  no duplicate coordinate. A hard drop before the first tick clears \<^verbatim>\<open>isFirstMove\<close>, so
  the first tick does not end the game; the second tick locks the piece where it is, and
  the filled field then holds two cells at (5, 0).
\<close>

theorem hard_drop_on_blocked_spawn_overlaps:
  "noOverlap (filledField (spawned (columnFrom 5 0)))
   \<and> map_option isFirstMove (run [HardDrop] (spawned (columnFrom 5 0))) = Some False
   \<and> map_option currentTetrominoPosition (run [HardDrop] (spawned (columnFrom 5 0)))
       = Some INITIAL_TETROMINO_POSITION
   \<and> map_option gameOver
        (run [HardDrop, Tick tPiece Orange, Tick tPiece Orange] (spawned (columnFrom 5 0)))
       = Some False
   \<and> map_option filledField
        (run [HardDrop, Tick tPiece Orange, Tick tPiece Orange] (spawned (columnFrom 5 0)))
       = Some (columnFrom 5 0 @
               [\<lparr>x = 5, y = - 1, color = Some Yellow\<rparr>, \<lparr>x = 4, y = 0, color = Some Yellow\<rparr>,
                \<lparr>x = 5, y = 0, color = Some Yellow\<rparr>, \<lparr>x = 6, y = 0, color = Some Yellow\<rparr>])
   \<and> map_option noOverlap (map_option filledField
        (run [HardDrop, Tick tPiece Orange, Tick tPiece Orange] (spawned (columnFrom 5 0))))
       = Some False"
  by code_simp

end
